theory Spec2Isabelle
  imports Complex_Main "HOL-Library.Word"
begin

section \<open>Python values shared by the two adapters\<close>

text \<open>
  The plugin has two adapters over one HTTP provider: \<^verbatim>\<open>stt.py\<close> (recognition) and
  \<^verbatim>\<open>tts.py\<close> (one-shot and incremental synthesis). Python strings are \<open>string\<close>s whose
  characters are the code points below 256; Python integers are \<open>int\<close>; the floats of
  the result (times, confidence) are the exact rationals they round.
\<close>

type_synonym bytes = "8 word list"

text \<open>A parsed JSON document, as \<^verbatim>\<open>await res.json()\<close> returns it: a dict is the list of
  its items.\<close>

datatype json =
    JNull
  | JBool bool
  | JNum rat
  | JStr string
  | JArr "json list"
  | JObj "(string \<times> json) list"

text \<open>The error body handed to a status error: absent, parsed JSON, or plain text.\<close>

datatype body = NoBody | BodyJson json | BodyText string

text \<open>
  The exceptions of the model. Every constructor is a subclass of Python's
  \<^verbatim>\<open>Exception\<close>, so a clause \<^verbatim>\<open>except Exception\<close> catches each of them; task
  cancellation, which is not, is outside the model.
  \<^item> \<open>TimeoutError\<close>: an instance of \<^verbatim>\<open>asyncio.TimeoutError\<close>;
  \<^item> \<open>ClientResponseError status message\<close>: \<^verbatim>\<open>aiohttp.ClientResponseError\<close>;
  \<^item> \<open>ClientError msg\<close>: any other instance of \<^verbatim>\<open>aiohttp.ClientError\<close>;
  \<^item> \<open>APIStatusError message status_code request_id body\<close>, \<open>APIConnectionError\<close> and
    \<open>APITimeoutError\<close>: the host framework's error classes, subclasses of its
    \<^verbatim>\<open>APIError(Exception)\<close>. The last two keep the literal part of their message
    (empty when the source passes none) and the exception they were raised from,
    whose text the source interpolates.
\<close>

datatype exn =
    TimeoutError
  | ClientError string
  | ClientResponseError int string
  | AttributeError
  | ZeroDivisionError
  | ValueError string
  | OtherError string
  | APIStatusError string int "nat option" body
  | APIConnectionError string exn
  | APITimeoutError string exn

fun is_TimeoutError :: "exn \<Rightarrow> bool" where
  "is_TimeoutError TimeoutError = True"
| "is_TimeoutError _ = False"

fun is_ClientError :: "exn \<Rightarrow> bool" where
  "is_ClientError (ClientError _) = True"
| "is_ClientError (ClientResponseError _ _) = True"
| "is_ClientError _ = False"

text \<open>
  One HTTP exchange. \<open>Raises e\<close>: obtaining the session or awaiting the response raised.
  \<open>Responds r\<close>: the response arrived; \<open>text_result\<close> and \<open>json_result\<close> are what
  \<^verbatim>\<open>await res.text()\<close> and \<^verbatim>\<open>await res.json()\<close> give, \<open>chunks\<close> what
  \<^verbatim>\<open>res.content.iter_chunked(8192)\<close> yields, and \<open>body_error\<close> an exception the iterator
  raises after them.
\<close>

record response =
  status :: int
  reason :: "string option"
  text_result :: "exn + string"
  json_result :: "exn + json"
  chunks :: "bytes list"
  body_error :: "exn option"

datatype http_outcome = Raises exn | Responds response

text \<open>\<^verbatim>\<open>rtc.AudioFrame\<close>.\<close>

record audio_frame =
  data :: bytes
  sample_rate :: int
  num_channels :: int
  samples_per_channel :: int

subsection \<open>Truth values and attribute access\<close>

fun truthy :: "json \<Rightarrow> bool" where
  "truthy JNull = False"
| "truthy (JBool b) = b"
| "truthy (JNum x) = (x \<noteq> 0)"
| "truthy (JStr s) = (s \<noteq> [])"
| "truthy (JArr xs) = (xs \<noteq> [])"
| "truthy (JObj kvs) = (kvs \<noteq> [])"

text \<open>\<^verbatim>\<open>obj.get(key, default)\<close>: only a dict has the method.\<close>

fun py_get :: "json \<Rightarrow> string \<Rightarrow> json \<Rightarrow> exn + json" where
  "py_get (JObj kvs) k d = Inr (case map_of kvs k of None \<Rightarrow> d | Some v \<Rightarrow> v)"
| "py_get _ k d = Inl AttributeError"

text \<open>\<^verbatim>\<open>a / b\<close> on integers.\<close>

definition true_div :: "int \<Rightarrow> int \<Rightarrow> exn + rat" where
  "true_div a b = (if b = 0 then Inl ZeroDivisionError else Inr (of_int a / of_int b))"

section \<open>Recognition: \<^verbatim>\<open>stt.py\<close>\<close>

record HamsaSTTOptions =
  language :: string
  api_key :: string
  base_url :: string

text \<open>The request of \<^verbatim>\<open>_recognize_impl\<close>: URL, headers and JSON payload.\<close>

record stt_request =
  url :: string
  authorization :: string
  content_type :: string
  user_agent :: string
  audioBase64 :: string
  req_language :: string
  isEosEnabled :: bool
  eosThreshold :: rat

text \<open>
  The audio buffer is a list of frames or one frame. An element of the list that is no
  frame lacks the attributes read from it; \<open>OtherObject\<close> is a buffer that is neither a
  list nor has the two attributes.
\<close>

datatype frame_obj = Frame audio_frame | NotAFrame

datatype audio_buffer = FrameList "frame_obj list" | SingleFrame audio_frame | OtherObject

text \<open>
  The collaborators of the adapter that are not in this repository:
  \<open>convert_to_wav_base64\<close> is \<^verbatim>\<open>STT._convert_to_wav_base64\<close>, whose body is the host
  framework's WAV encoder followed by base64, and \<open>post\<close> the shared transport
  session.
\<close>

record stt_env =
  convert_to_wav_base64 :: "audio_buffer \<Rightarrow> exn + string"
  post :: "stt_request \<Rightarrow> http_outcome"

record SpeechData =
  sd_language :: string
  sd_text :: json
  start_time :: rat
  end_time :: rat
  confidence :: rat
  gender :: "string option"

datatype SpeechEventType = FINAL_TRANSCRIPT

record SpeechEvent =
  event_type :: SpeechEventType
  alternatives :: "SpeechData list"

text \<open>Lines 180 to 182: the transcript taken from the parsed response.\<close>

definition parse_transcript :: "json \<Rightarrow> exn + json" where
  "parse_transcript response_json =
     (case py_get response_json ''success'' JNull of
        Inl e \<Rightarrow> Inl e
      | Inr success \<Rightarrow>
          if \<not> truthy success then Inr (JStr '''')
          else (case py_get response_json ''data'' JNull of
                  Inl e \<Rightarrow> Inl e
                | Inr d \<Rightarrow>
                    if \<not> truthy d then Inr (JStr '''')
                    else py_get d ''text'' (JStr '''')))"

text \<open>\<^verbatim>\<open>sum(frame.samples_per_channel for frame in buffer)\<close>.\<close>

fun sum_samples :: "frame_obj list \<Rightarrow> exn + int" where
  "sum_samples [] = Inr 0"
| "sum_samples (NotAFrame # fs) = Inl AttributeError"
| "sum_samples (Frame f # fs) =
     (case sum_samples fs of Inl e \<Rightarrow> Inl e | Inr n \<Rightarrow> Inr (samples_per_channel f + n))"

text \<open>Lines 188 to 196, the body of the inner \<^verbatim>\<open>try\<close>; \<open>end_time\<close> starts at 0.\<close>

definition compute_duration :: "audio_buffer \<Rightarrow> exn + rat" where
  "compute_duration buffer =
     (case buffer of
        FrameList fs \<Rightarrow>
          (case sum_samples fs of
             Inl e \<Rightarrow> Inl e
           | Inr total_samples \<Rightarrow>
               (case fs of
                  [] \<Rightarrow> Inr 0
                | f0 # _ \<Rightarrow>
                    if total_samples > 0
                    then (case f0 of
                            NotAFrame \<Rightarrow> Inl AttributeError
                          | Frame f \<Rightarrow> true_div total_samples (sample_rate f))
                    else Inr 0))
      | SingleFrame f \<Rightarrow> true_div (samples_per_channel f) (sample_rate f)
      | OtherObject \<Rightarrow> Inr 0)"

text \<open>Lines 187 to 199: the inner \<^verbatim>\<open>try\<close> with its handler.\<close>

definition duration_or_zero :: "audio_buffer \<Rightarrow> rat" where
  "duration_or_zero buffer = (case compute_duration buffer of Inl e \<Rightarrow> 0 | Inr t \<Rightarrow> t)"

text \<open>Lines 217 to 225: what the three handlers raise for an exception of the
  \<^verbatim>\<open>try\<close> block.\<close>

definition stt_handlers :: "exn \<Rightarrow> exn" where
  "stt_handlers e =
     (if is_TimeoutError e then APITimeoutError ''Hamsa API request timed out'' e
      else if is_ClientError e then APIConnectionError ''Hamsa API connection error: '' e
      else APIConnectionError ''Unexpected error in Hamsa STT: '' e)"

text \<open>Lines 145 to 166: the payload and headers of the request. Lines 159 to 215: the
  \<^verbatim>\<open>try\<close> block, before its handlers.\<close>

definition recognize_request :: "HamsaSTTOptions \<Rightarrow> string \<Rightarrow> string \<Rightarrow> stt_request" where
  "recognize_request opts opts_language audio_base64 =
     \<lparr>url = base_url opts,
      authorization = ''Token '' @ api_key opts,
      content_type = ''application/json'',
      user_agent = ''LiveKit Agents'',
      audioBase64 = audio_base64,
      req_language = opts_language,
      isEosEnabled = False,
      eosThreshold = 3 / 10\<rparr>"

definition recognize_body ::
  "stt_env \<Rightarrow> HamsaSTTOptions \<Rightarrow> audio_buffer \<Rightarrow> string \<Rightarrow> string \<Rightarrow> exn + SpeechEvent" where
  "recognize_body env opts buffer opts_language audio_base64 =
     (case post env (recognize_request opts opts_language audio_base64) of
        Raises e \<Rightarrow> Inl e
      | Responds res \<Rightarrow>
          if status res \<noteq> 200
          then (case text_result res of
                  Inl e \<Rightarrow> Inl e
                | Inr error_text \<Rightarrow>
                    Inl (APIStatusError (''Hamsa API Error: '' @ error_text) (status res)
                           None NoBody))
          else (case json_result res of
                  Inl e \<Rightarrow> Inl e
                | Inr response_json \<Rightarrow>
                    (case parse_transcript response_json of
                       Inl e \<Rightarrow> Inl e
                     | Inr transcript_text \<Rightarrow>
                         Inr \<lparr>event_type = FINAL_TRANSCRIPT,
                              alternatives =
                                [\<lparr>sd_language = opts_language,
                                  sd_text = transcript_text,
                                  start_time = 0,
                                  end_time = duration_or_zero buffer,
                                  confidence = 1,
                                  gender = Some ''Male''\<rparr>]\<rparr>)))"

text \<open>\<^verbatim>\<open>STT._recognize_impl\<close>; the language is \<open>None\<close> for \<^verbatim>\<open>NOT_GIVEN\<close>.\<close>

definition recognize_impl ::
  "stt_env \<Rightarrow> HamsaSTTOptions \<Rightarrow> audio_buffer \<Rightarrow> string option \<Rightarrow> exn + SpeechEvent" where
  "recognize_impl env opts buffer lang =
     (let opts_language = (case lang of None \<Rightarrow> language opts | Some l \<Rightarrow> l) in
      case convert_to_wav_base64 env buffer of
        Inl e \<Rightarrow> Inl (APIConnectionError ''Audio conversion error: '' e)
      | Inr audio_base64 \<Rightarrow>
          (case recognize_body env opts buffer opts_language audio_base64 of
             Inl e \<Rightarrow> Inl (stt_handlers e)
           | Inr ev \<Rightarrow> Inr ev))"

section \<open>Synthesis: \<^verbatim>\<open>tts.py\<close>\<close>

definition NUM_CHANNELS :: int where
  "NUM_CHANNELS = 1"

text \<open>\<^verbatim>\<open>_TTSOptions\<close>; the word tokenizer, which no method reads, is left out.\<close>

record TTSOptions =
  speaker :: string
  dialect :: string
  mulaw :: bool
  opt_sample_rate :: int

text \<open>The JSON payload of a synthesis request.\<close>

record tts_payload =
  p_speaker :: string
  p_dialect :: string
  p_text :: string
  p_mulaw :: bool

text \<open>Lines 190 to 195 and 319 to 324: both synthesis methods build the same payload.\<close>

definition synthesis_payload :: "TTSOptions \<Rightarrow> string \<Rightarrow> tts_payload" where
  "synthesis_payload opts segment =
     \<lparr>p_speaker = speaker opts, p_dialect = dialect opts, p_text = segment,
      p_mulaw = mulaw opts\<rparr>"

subsection \<open>The byte-stream reassembler\<close>

text \<open>
  Modelled from the spec: \<^verbatim>\<open>utils.audio.AudioByteStream\<close> belongs to the host framework
  and is not among the sources. Section 4.1 of the specification gives its contract:
  \<open>write_bs\<close> (the method \<^verbatim>\<open>write\<close>) emits the complete frames the accumulated bytes fill at the configured
  sample rate and channel count and buffers the rest; \<open>flush_bs\<close> (the method \<^verbatim>\<open>flush\<close>) emits the buffered
  remainder as one last, possibly short, frame and clears the buffer. A frame holds
  100 ms of 16-bit samples; a frame size of zero fills no frame.
\<close>

record AudioByteStream =
  bs_sample_rate :: int
  bs_num_channels :: int
  bytes_per_frame :: nat
  buf :: bytes

definition new_AudioByteStream :: "int \<Rightarrow> int \<Rightarrow> AudioByteStream" where
  "new_AudioByteStream sr nc =
     \<lparr>bs_sample_rate = sr, bs_num_channels = nc,
      bytes_per_frame = nat (nc * (sr div 10) * 2), buf = []\<rparr>"

definition mk_frame :: "AudioByteStream \<Rightarrow> bytes \<Rightarrow> audio_frame" where
  "mk_frame bs d =
     \<lparr>data = d, sample_rate = bs_sample_rate bs, num_channels = bs_num_channels bs,
      samples_per_channel = int (length d) div (2 * bs_num_channels bs)\<rparr>"

function chop :: "nat \<Rightarrow> bytes \<Rightarrow> bytes list \<times> bytes" where
  "chop n b =
     (if 0 < n \<and> n \<le> length b
      then (case chop n (drop n b) of (ds, r) \<Rightarrow> (take n b # ds, r))
      else ([], b))"
  by pat_completeness auto
termination
  by (relation "measure (\<lambda>(n, b). length b)") auto

declare chop.simps [simp del]

definition write_bs :: "AudioByteStream \<Rightarrow> bytes \<Rightarrow> AudioByteStream \<times> audio_frame list" where
  "write_bs bs chunk =
     (case chop (bytes_per_frame bs) (buf bs @ chunk) of
        (ds, r) \<Rightarrow> (bs\<lparr>buf := r\<rparr>, map (mk_frame bs) ds))"

definition flush_bs :: "AudioByteStream \<Rightarrow> AudioByteStream \<times> audio_frame list" where
  "flush_bs bs =
     (if buf bs = [] then (bs, []) else (bs\<lparr>buf := []\<rparr>, [mk_frame bs (buf bs)]))"

subsection \<open>One-shot synthesis: \<^verbatim>\<open>ChunkedStream._run\<close>\<close>

text \<open>Lines 207 to 214: the error body, JSON first, else text, else absent.\<close>

definition error_body :: "response \<Rightarrow> body" where
  "error_body res =
     (case json_result res of
        Inr j \<Rightarrow> BodyJson j
      | Inl _ \<Rightarrow> (case text_result res of Inr t \<Rightarrow> BodyText t | Inl _ \<Rightarrow> NoBody))"

text \<open>\<^verbatim>\<open>res.reason or "Unknown error occurred."\<close>\<close>

definition reason_or_unknown :: "string option \<Rightarrow> string" where
  "reason_or_unknown r =
     (case r of
        None \<Rightarrow> ''Unknown error occurred.''
      | Some m \<Rightarrow> if m = [] then ''Unknown error occurred.'' else m)"

text \<open>Lines 240 to 250: what the three handlers raise for an exception of the
  \<^verbatim>\<open>try\<close> block.\<close>

definition tts_handlers :: "nat \<Rightarrow> exn \<Rightarrow> exn" where
  "tts_handlers request_id e =
     (if is_TimeoutError e then APITimeoutError [] e
      else (case e of
              ClientResponseError st msg \<Rightarrow> APIStatusError msg st (Some request_id) NoBody
            | _ \<Rightarrow> APIConnectionError [] e))"

text \<open>Lines 224 to 232: the chunks written to the reassembler, empty ones skipped; the
  frames come out in the order of the writes.\<close>

fun write_chunks ::
  "AudioByteStream \<Rightarrow> bytes list \<Rightarrow> AudioByteStream \<times> audio_frame list" where
  "write_chunks bs [] = (bs, [])"
| "write_chunks bs (chunk # cs) =
     (if chunk = [] then write_chunks bs cs
      else (case write_bs bs chunk of
              (bs1, fs1) \<Rightarrow>
                (case write_chunks bs1 cs of (bs2, fs2) \<Rightarrow> (bs2, fs1 @ fs2))))"

text \<open>
  \<^verbatim>\<open>ChunkedStream._run\<close>. The result is the list of \<^verbatim>\<open>SynthesizedAudio\<close> sent on the
  event channel, each a request id with a frame, and the exception the method raises,
  if any. The request id stands for the value of \<^verbatim>\<open>utils.shortuuid()\<close>.
\<close>

definition chunked_run ::
  "(tts_payload \<Rightarrow> http_outcome) \<Rightarrow> TTSOptions \<Rightarrow> string \<Rightarrow> nat \<Rightarrow>
     (nat \<times> audio_frame) list \<times> exn option" where
  "chunked_run session_post opts input_text request_id =
     (let audio_bstream = new_AudioByteStream (opt_sample_rate opts) NUM_CHANNELS;
          payload = synthesis_payload opts input_text
      in case session_post payload of
           Raises e \<Rightarrow> ([], Some (tts_handlers request_id e))
         | Responds res \<Rightarrow>
             if status res \<noteq> 200
             then ([], Some (tts_handlers request_id
                               (APIStatusError (reason_or_unknown (reason res)) (status res)
                                  (Some request_id) (error_body res))))
             else (case write_chunks audio_bstream (chunks res) of
                     (bs1, fs1) \<Rightarrow>
                       (case body_error res of
                          Some e \<Rightarrow>
                            (map (Pair request_id) fs1, Some (tts_handlers request_id e))
                        | None \<Rightarrow>
                            (map (Pair request_id) (fs1 @ snd (flush_bs bs1)), None))))"

subsection \<open>Incremental synthesis: \<^verbatim>\<open>SynthesizeStream\<close>\<close>

text \<open>\<^verbatim>\<open>str.isspace\<close> on the code points below 256, and \<^verbatim>\<open>str.strip()\<close>.\<close>

definition isspace :: "char \<Rightarrow> bool" where
  "isspace c = ((of_char c :: nat) \<in> {9, 10, 11, 12, 13, 28, 29, 30, 31, 32, 133, 160})"

definition strip :: "string \<Rightarrow> string" where
  "strip s = rev (dropWhile isspace (rev (dropWhile isspace s)))"

text \<open>Line 301: \<^verbatim>\<open>any(punct in accumulated_text for punct in ...)\<close> over the full stop,
  the exclamation mark, the question mark and the newline.\<close>

definition has_terminal :: "string \<Rightarrow> bool" where
  "has_terminal accumulated =
     list_ex (\<lambda>punct. punct \<in> set accumulated) [CHR ''.'', CHR ''!'', CHR ''?'', CHR 0x0A]"

text \<open>
  What the stream does that can be seen from outside, in the order it happens: a request
  posted, a chunk of the response body received, a \<^verbatim>\<open>SynthesizedAudio\<close> sent on the event
  channel, and the two calls of \<^verbatim>\<open>logger.error\<close>. Requests are numbered as they are
  issued; the number stands for the value of \<^verbatim>\<open>utils.shortuuid()\<close>.
\<close>

datatype event =
    Request nat tts_payload
  | Received nat bytes
  | Emit nat audio_frame
  | LogStatus int "string option"
  | LogException exn

record SynthesizeStream =
  st_opts :: TTSOptions
  accumulated_text :: string
  audio_bstream :: AudioByteStream
  requests_made :: nat
  trace :: "event list"

text \<open>Lines 271 to 283.\<close>

definition update_options ::
  "string option \<Rightarrow> string option \<Rightarrow> int option \<Rightarrow> SynthesizeStream \<Rightarrow> SynthesizeStream" where
  "update_options spk dia sr s =
     (let s1 = (case spk of None \<Rightarrow> s | Some v \<Rightarrow> s\<lparr>st_opts := (st_opts s)\<lparr>speaker := v\<rparr>\<rparr>);
          s2 = (case dia of None \<Rightarrow> s1 | Some v \<Rightarrow> s1\<lparr>st_opts := (st_opts s1)\<lparr>dialect := v\<rparr>\<rparr>)
      in case sr of None \<Rightarrow> s2 | Some v \<Rightarrow> s2\<lparr>st_opts := (st_opts s2)\<lparr>opt_sample_rate := v\<rparr>\<rparr>)"

definition emit_frames :: "nat \<Rightarrow> audio_frame list \<Rightarrow> SynthesizeStream \<Rightarrow> SynthesizeStream" where
  "emit_frames request_id fs s = s\<lparr>trace := trace s @ map (Emit request_id) fs\<rparr>"

definition log_event :: "event \<Rightarrow> SynthesizeStream \<Rightarrow> SynthesizeStream" where
  "log_event e s = s\<lparr>trace := trace s @ [e]\<rparr>"

text \<open>Lines 342 to 350: one turn of the loop over the response body.\<close>

definition receive_chunk :: "nat \<Rightarrow> bytes \<Rightarrow> SynthesizeStream \<Rightarrow> SynthesizeStream" where
  "receive_chunk request_id chunk s =
     (let s1 = log_event (Received request_id chunk) s in
      if chunk = [] then s1
      else (case write_bs (audio_bstream s1) chunk of
              (bs, fs) \<Rightarrow> emit_frames request_id fs (s1\<lparr>audio_bstream := bs\<rparr>)))"

text \<open>
  \<^verbatim>\<open>SynthesizeStream._synthesize_text\<close>, lines 314 to 359. The transport answers the
  \<open>n\<close>-th request of the stream with \<open>session_post n payload\<close>. The reassembler is the one
  the caller passes, kept in the state.
\<close>

definition synthesize_text ::
  "(nat \<Rightarrow> tts_payload \<Rightarrow> http_outcome) \<Rightarrow> string \<Rightarrow> SynthesizeStream \<Rightarrow> SynthesizeStream" where
  "synthesize_text session_post segment s =
     (let request_id = requests_made s;
          payload = synthesis_payload (st_opts s) segment;
          s1 = log_event (Request request_id payload) (s\<lparr>requests_made := Suc request_id\<rparr>)
      in case session_post request_id payload of
           Raises e \<Rightarrow> log_event (LogException e) s1
         | Responds res \<Rightarrow>
             if status res \<noteq> 200 then log_event (LogStatus (status res) (reason res)) s1
             else (let s2 = fold (receive_chunk request_id) (chunks res) s1 in
                   case body_error res of
                     Some e \<Rightarrow> log_event (LogException e) s2
                   | None \<Rightarrow>
                       (case flush_bs (audio_bstream s2) of
                          (bs, fs) \<Rightarrow> emit_frames request_id fs (s2\<lparr>audio_bstream := bs\<rparr>))))"

text \<open>What arrives on the input channel: a text token or the flush sentinel.\<close>

datatype input_data = Token string | FlushSentinel

text \<open>Lines 297 to 310: one turn of the loop of \<^verbatim>\<open>_process_input\<close>.\<close>

fun process_input :: 
  "(nat \<Rightarrow> tts_payload \<Rightarrow> http_outcome) \<Rightarrow> input_data \<Rightarrow> SynthesizeStream \<Rightarrow> SynthesizeStream" where
  "process_input session_post (Token input) s =
     (let s1 = s\<lparr>accumulated_text := accumulated_text s @ input\<rparr> in
      if has_terminal (accumulated_text s1)
      then (if strip (accumulated_text s1) \<noteq> []
            then synthesize_text session_post (strip (accumulated_text s1)) s1
            else s1)\<lparr>accumulated_text := []\<rparr>
      else s1)"
| "process_input session_post FlushSentinel s =
     (if strip (accumulated_text s) \<noteq> []
      then synthesize_text session_post (strip (accumulated_text s)) s
      else s)\<lparr>accumulated_text := []\<rparr>"

text \<open>
  What happens to a running stream: the next item of its input channel, or a call of
  \<^verbatim>\<open>update_options\<close>. The method is synchronous, so it runs while \<^verbatim>\<open>_run\<close> is suspended;
  a request has built its payload and holds its reassembler before it first suspends,
  so a call during a request acts as one right after it.
\<close>

datatype stream_event =
    Input input_data
  | UpdateOptions "string option" "string option" "int option"

fun stream_step ::
  "(nat \<Rightarrow> tts_payload \<Rightarrow> http_outcome) \<Rightarrow> SynthesizeStream \<Rightarrow> stream_event \<Rightarrow> SynthesizeStream" where
  "stream_step session_post s (Input i) = process_input session_post i s"
| "stream_step session_post s (UpdateOptions spk dia sr) = update_options spk dia sr s"

text \<open>Lines 285 to 312: \<^verbatim>\<open>SynthesizeStream._run\<close> on a stream constructed with \<open>opts\<close>.\<close>

definition start_stream :: "TTSOptions \<Rightarrow> SynthesizeStream" where
  "start_stream opts =
     \<lparr>st_opts = opts, accumulated_text = [],
      audio_bstream = new_AudioByteStream (opt_sample_rate opts) NUM_CHANNELS,
      requests_made = 0, trace = []\<rparr>"

definition run_stream ::
  "(nat \<Rightarrow> tts_payload \<Rightarrow> http_outcome) \<Rightarrow> TTSOptions \<Rightarrow> stream_event list \<Rightarrow> SynthesizeStream" where
  "run_stream session_post opts evs = foldl (stream_step session_post) (start_stream opts) evs"

subsection \<open>Reading a trace\<close>

text \<open>The payloads of the requests, in the order they were issued, and their texts: the
  finalized segments.\<close>

fun requests :: "event list \<Rightarrow> tts_payload list" where
  "requests [] = []"
| "requests (Request n p # es) = p # requests es"
| "requests (_ # es) = requests es"

definition segments :: "event list \<Rightarrow> string list" where
  "segments es = map p_text (requests es)"

fun emitted :: "event list \<Rightarrow> (nat \<times> audio_frame) list" where
  "emitted [] = []"
| "emitted (Emit n f # es) = (n, f) # emitted es"
| "emitted (_ # es) = emitted es"

text \<open>The request and the sample rate of each frame sent, and the bytes sent and
  received, in order.\<close>

definition frame_rates :: "event list \<Rightarrow> (nat \<times> int) list" where
  "frame_rates es = map (\<lambda>(n, f). (n, sample_rate f)) (emitted es)"

definition emitted_bytes :: "event list \<Rightarrow> bytes" where
  "emitted_bytes es = concat (map (\<lambda>(n, f). data f) (emitted es))"

fun received_bytes :: "event list \<Rightarrow> bytes" where
  "received_bytes [] = []"
| "received_bytes (Received n c # es) = c @ received_bytes es"
| "received_bytes (_ # es) = received_bytes es"

text \<open>
  The order of a session, as an automaton over the trace. Its state is the phase and
  the bytes received and not yet sent in a frame. Before the first request the stream
  is \<open>Idle\<close>. A request must carry the next number, and it may only be issued when the
  segment before it is settled: closed by a log entry, or open with no byte pending.
  Chunks and frames belong to the open segment, and a frame holds exactly the oldest
  pending bytes. A log entry closes the open segment, and nothing of it may follow.
\<close>

datatype phase = Idle | Opened nat | Logged nat

fun next_request :: "phase \<Rightarrow> nat" where
  "next_request Idle = 0"
| "next_request (Opened n) = Suc n"
| "next_request (Logged n) = Suc n"

fun closes :: "phase \<Rightarrow> phase option" where
  "closes (Opened n) = Some (Logged n)"
| "closes _ = None"

fun settled :: "phase \<Rightarrow> bytes \<Rightarrow> bool" where
  "settled (Opened n) pending = (pending = [])"
| "settled ph pending = True"

fun order_step :: "phase \<times> bytes \<Rightarrow> event \<Rightarrow> (phase \<times> bytes) option" where
  "order_step (ph, pending) (Request n p) =
     (if n = next_request ph \<and> settled ph pending then Some (Opened n, pending) else None)"
| "order_step (ph, pending) (Received n c) =
     (if ph = Opened n then Some (ph, pending @ c) else None)"
| "order_step (ph, pending) (Emit n f) =
     (if ph = Opened n \<and> take (length (data f)) pending = data f
      then Some (ph, drop (length (data f)) pending) else None)"
| "order_step (ph, pending) (LogStatus st r) =
     (case closes ph of None \<Rightarrow> None | Some ph' \<Rightarrow> Some (ph', pending))"
| "order_step (ph, pending) (LogException e) =
     (case closes ph of None \<Rightarrow> None | Some ph' \<Rightarrow> Some (ph', pending))"

fun order_after :: "phase \<times> bytes \<Rightarrow> event list \<Rightarrow> (phase \<times> bytes) option" where
  "order_after st [] = Some st"
| "order_after st (e # es) =
     (case order_step st e of None \<Rightarrow> None | Some st' \<Rightarrow> order_after st' es)"

text \<open>A whole trace is in order when the automaton accepts it from the start and the
  last segment is settled too.\<close>

definition in_order :: "event list \<Rightarrow> bool" where
  "in_order es =
     (case order_after (Idle, []) es of
        None \<Rightarrow> False
      | Some (ph, pending) \<Rightarrow> settled ph pending)"

text \<open>
  The trace without its frames, and what it has to be: for each request in turn, the
  request, then what the transport answered it with, chunk by chunk, and the log entry
  of the failure when the answer is one.
\<close>

fun transport_events :: "event list \<Rightarrow> event list" where
  "transport_events [] = []"
| "transport_events (Emit n f # es) = transport_events es"
| "transport_events (e # es) = e # transport_events es"

definition exchange ::
  "(nat \<Rightarrow> tts_payload \<Rightarrow> http_outcome) \<Rightarrow> nat \<Rightarrow> tts_payload \<Rightarrow> event list" where
  "exchange session_post n p =
     Request n p #
     (case session_post n p of
        Raises e \<Rightarrow> [LogException e]
      | Responds res \<Rightarrow>
          if status res \<noteq> 200 then [LogStatus (status res) (reason res)]
          else map (Received n) (chunks res) @
               (case body_error res of Some e \<Rightarrow> [LogException e] | None \<Rightarrow> []))"

fun exchanges ::
  "(nat \<Rightarrow> tts_payload \<Rightarrow> http_outcome) \<Rightarrow> nat \<Rightarrow> tts_payload list \<Rightarrow> event list" where
  "exchanges session_post n [] = []"
| "exchanges session_post n (p # ps) =
     exchange session_post n p @ exchanges session_post (Suc n) ps"

text \<open>
  The segmenter of section 4.2 of the specification on its own: the segments a sequence
  of inputs finalizes, computed from the accumulator alone, with the guard of line 302.
\<close>

fun inputs :: "stream_event list \<Rightarrow> input_data list" where
  "inputs [] = []"
| "inputs (Input i # evs) = i # inputs evs"
| "inputs (UpdateOptions spk dia sr # evs) = inputs evs"

fun finalized_segments :: "string \<Rightarrow> input_data list \<Rightarrow> string list" where
  "finalized_segments acc [] = []"
| "finalized_segments acc (Token t # is) =
     (if has_terminal (acc @ t)
      then (if strip (acc @ t) \<noteq> [] then [strip (acc @ t)] else []) @ finalized_segments [] is
      else finalized_segments (acc @ t) is)"
| "finalized_segments acc (FlushSentinel # is) =
     (if strip acc \<noteq> [] then [strip acc] else []) @ finalized_segments [] is"

text \<open>The sample rates of the frames of a one-shot call.\<close>

definition oneshot_frame_rates :: "(nat \<times> audio_frame) list \<times> exn option \<Rightarrow> int list" where
  "oneshot_frame_rates r = map (\<lambda>(n, f). sample_rate f) (fst r)"

subsection \<open>Invariants of a session\<close>

text \<open>
  \<open>ordered\<close>: between two inputs the trace is in order, the pending bytes are the ones
  in the reassembler, and the next request number is the one the order expects.
  \<open>opened n\<close>: inside request \<open>n\<close> the same holds with the segment open.
  \<open>exchanged\<close>: the trace without its frames is what the transport's answers give.
  \<open>bytes_kept\<close>: the bytes sent in frames, followed by the bytes still buffered, are the
  bytes received. \<open>rate_kept r\<close>: the reassembler and every frame sent have the sample
  rate \<open>r\<close>. \<open>in_step\<close>: two sessions have the same options, accumulator and requests.
\<close>

definition ordered :: "SynthesizeStream \<Rightarrow> bool" where
  "ordered s =
     (case order_after (Idle, []) (trace s) of
        None \<Rightarrow> False
      | Some (ph, pending) \<Rightarrow>
          pending = buf (audio_bstream s) \<and> settled ph pending \<and>
          next_request ph = requests_made s)"

definition opened :: "nat \<Rightarrow> SynthesizeStream \<Rightarrow> bool" where
  "opened n s = (order_after (Idle, []) (trace s) = Some (Opened n, buf (audio_bstream s)))"

definition exchanged ::
  "(nat \<Rightarrow> tts_payload \<Rightarrow> http_outcome) \<Rightarrow> SynthesizeStream \<Rightarrow> bool" where
  "exchanged session_post s =
     (transport_events (trace s) = exchanges session_post 0 (requests (trace s)) \<and>
      length (requests (trace s)) = requests_made s)"

definition bytes_kept :: "SynthesizeStream \<Rightarrow> bool" where
  "bytes_kept s = (emitted_bytes (trace s) @ buf (audio_bstream s) = received_bytes (trace s))"

definition rate_kept :: "int \<Rightarrow> SynthesizeStream \<Rightarrow> bool" where
  "rate_kept r s = (bs_sample_rate (audio_bstream s) = r \<and>
                    list_all (\<lambda>(n, f). sample_rate f = r) (emitted (trace s)))"

definition in_step :: "SynthesizeStream \<Rightarrow> SynthesizeStream \<Rightarrow> bool" where
  "in_step s s' = (st_opts s = st_opts s' \<and> accumulated_text s = accumulated_text s' \<and>
                   requests (trace s) = requests (trace s'))"

section \<open>Concrete inputs\<close>

text \<open>The options are the defaults of the two constructors.\<close>

definition stt_opts0 :: HamsaSTTOptions where
  "stt_opts0 =
     \<lparr>language = ''ar'', api_key = ''key'',
      base_url = ''https://api.tryhamsa.com/v1/realtime/stt''\<rparr>"

definition tts_opts0 :: TTSOptions where
  "tts_opts0 = \<lparr>speaker = ''Ali'', dialect = ''pls'', mulaw = False, opt_sample_rate = 16000\<rparr>"

definition frame_100ms :: audio_frame where
  "frame_100ms =
     \<lparr>data = replicate 4 0, sample_rate = 16000, num_channels = 1, samples_per_channel = 1600\<rparr>"

definition frame_rate0 :: audio_frame where
  "frame_rate0 =
     \<lparr>data = replicate 4 0, sample_rate = 0, num_channels = 1, samples_per_channel = 2\<rparr>"

definition buffer_200ms :: audio_buffer where
  "buffer_200ms = FrameList [Frame frame_100ms, Frame frame_100ms]"

text \<open>A 500 answer with a plain-text body, a recognition answer with a transcript, one
  with \<^verbatim>\<open>success\<close> false, and a synthesis answer of four bytes of audio.\<close>

definition response_500 :: response where
  "response_500 =
     \<lparr>status = 500, reason = Some ''Internal Server Error'', text_result = Inr ''boom'',
      json_result = Inl (ClientResponseError 500 ''unexpected mimetype''),
      chunks = [], body_error = None\<rparr>"

definition response_ok :: response where
  "response_ok =
     \<lparr>status = 200, reason = Some ''OK'', text_result = Inr [],
      json_result =
        Inr (JObj [(''success'', JBool True), (''data'', JObj [(''text'', JStr ''marhaba'')])]),
      chunks = [], body_error = None\<rparr>"

definition response_unsuccessful :: response where
  "response_unsuccessful =
     \<lparr>status = 200, reason = Some ''OK'', text_result = Inr [],
      json_result = Inr (JObj [(''success'', JBool False)]),
      chunks = [], body_error = None\<rparr>"

definition response_audio :: response where
  "response_audio =
     \<lparr>status = 200, reason = Some ''OK'', text_result = Inr [],
      json_result = Inl (ClientResponseError 200 ''unexpected mimetype''),
      chunks = [[1, 2, 3, 4]], body_error = None\<rparr>"

definition stt_env_of :: "response \<Rightarrow> stt_env" where
  "stt_env_of res =
     \<lparr>convert_to_wav_base64 = (\<lambda>b. Inr ''UklGRg==''), post = (\<lambda>r. Responds res)\<rparr>"

definition tts_post_500 :: "tts_payload \<Rightarrow> http_outcome" where
  "tts_post_500 p = Responds response_500"

definition post_audio :: "nat \<Rightarrow> tts_payload \<Rightarrow> http_outcome" where
  "post_audio n p = Responds response_audio"

text \<open>A transport whose first answer is the 500 and whose later answers are audio.\<close>

definition post_flaky :: "nat \<Rightarrow> tts_payload \<Rightarrow> http_outcome" where
  "post_flaky n p = (if n = 0 then Responds response_500 else Responds response_audio)"

definition hello_world :: "stream_event list" where
  "hello_world = [Input (Token ''Hello''), Input (Token '' world''), Input (Token ''.'')]"

definition rate_change :: "stream_event list" where
  "rate_change =
     [Input (Token ''A.''), UpdateOptions None None (Some 8000), Input (Token ''B.'')]"

definition speaker_change :: "stream_event list" where
  "speaker_change =
     [Input (Token ''A.''), UpdateOptions (Some ''Sara'') None None, Input (Token ''B.'')]"

definition oneshot_audio :: "tts_payload \<Rightarrow> http_outcome" where
  "oneshot_audio p = Responds response_audio"

definition two_sentences :: "stream_event list" where
  "two_sentences = [Input (Token ''A.''), Input (Token ''B.'')]"

fun is_APIStatusError :: "exn \<Rightarrow> bool" where
  "is_APIStatusError (APIStatusError _ _ _ _) = True"
| "is_APIStatusError _ = False"

section \<open>Recognition: the result of a call\<close>

lemma recognize_impl_InrD:
  assumes "recognize_impl env opts buffer lang = Inr ev"
  shows "\<exists>t. ev = \<lparr>event_type = FINAL_TRANSCRIPT,
                   alternatives =
                     [\<lparr>sd_language = (case lang of None \<Rightarrow> language opts | Some l \<Rightarrow> l),
                       sd_text = t, start_time = 0, end_time = duration_or_zero buffer,
                       confidence = 1, gender = Some ''Male''\<rparr>]\<rparr>"
  using assms
  by (auto simp: recognize_impl_def recognize_body_def Let_def
      split: sum.splits http_outcome.splits if_splits)

lemma recognize_impl_response_ok:
  "\<exists>ev. recognize_impl (stt_env_of response_ok) stt_opts0 b l = Inr ev"
  by (simp add: recognize_impl_def recognize_body_def stt_env_of_def response_ok_def
      parse_transcript_def)

lemma sum_samples_frames:
  "sum_samples (map Frame fs) = Inr (sum_list (map samples_per_channel fs))"
  by (induction fs) auto

lemma recognize_impl_same_conversion:
  assumes "recognize_impl env opts buffer lang = Inr ev"
    and "convert_to_wav_base64 env buffer' = convert_to_wav_base64 env buffer"
  shows "\<exists>ev'. recognize_impl env opts buffer' lang = Inr ev'"
  using assms
  by (auto simp: recognize_impl_def recognize_body_def Let_def
      split: sum.splits http_outcome.splits if_splits)

text \<open>
  A response whose status is not 200 never leaves either adapter as a status error: the
  status error raised inside the \<^verbatim>\<open>try\<close> block is itself an \<^verbatim>\<open>Exception\<close>, so the last
  handler catches it and raises a connection error in its place.
\<close>

lemma non_200_never_status_error:
  assumes "status res \<noteq> 200"
  shows "convert_to_wav_base64 env buffer = Inr a \<Longrightarrow>
         post env (recognize_request opts
                     (case lang of None \<Rightarrow> language opts | Some l \<Rightarrow> l) a) = Responds res \<Longrightarrow>
         \<exists>e. recognize_impl env opts buffer lang = Inl e \<and> \<not> is_APIStatusError e"
    and "session_post (synthesis_payload topts input_text) = Responds res \<Longrightarrow>
         \<exists>c. chunked_run session_post topts input_text rid =
               ([], Some (APIConnectionError [] c))"
  using assms
  by (auto simp: recognize_impl_def recognize_body_def stt_handlers_def chunked_run_def
      tts_handlers_def Let_def split: sum.splits)

text \<open>
  C1. The claim: for every response whose status is not 200, \<^verbatim>\<open>STT._recognize_impl\<close> and
  \<^verbatim>\<open>ChunkedStream._run\<close> raise a status error carrying the status received. On a 500
  response the recognition adapter raises a connection error, and so does the one-shot
  synthesis adapter; the status error with code 500 is only the cause each of them was
  raised from.
\<close>

theorem non_200_status_error_is_rewrapped:
  "recognize_impl (stt_env_of response_500) stt_opts0 (SingleFrame frame_100ms) None =
     Inl (APIConnectionError ''Unexpected error in Hamsa STT: ''
            (APIStatusError ''Hamsa API Error: boom'' 500 None NoBody))
   \<and> chunked_run tts_post_500 tts_opts0 ''Hi.'' 7 =
     ([], Some (APIConnectionError []
                  (APIStatusError ''Internal Server Error'' 500 (Some 7) (BodyText ''boom''))))"
  by (simp add: recognize_impl_def recognize_body_def stt_env_of_def response_500_def
      stt_handlers_def chunked_run_def tts_post_500_def tts_handlers_def error_body_def
      reason_or_unknown_def)

text \<open>
  C5. When the response has status 200 and its JSON body is an object in which
  \<^verbatim>\<open>success\<close> is false or \<^verbatim>\<open>data\<close> is absent, the call returns a result, and the text of
  its one alternative is the empty string.
\<close>

theorem unsuccessful_response_empty_transcript:
  assumes conv: "convert_to_wav_base64 env buffer = Inr a"
    and resp: "post env (recognize_request opts
                           (case lang of None \<Rightarrow> language opts | Some l \<Rightarrow> l) a) = Responds res"
    and ok: "status res = 200"
    and js: "json_result res = Inr (JObj kvs)"
    and unsuccessful: "map_of kvs ''success'' = Some (JBool False) \<or> map_of kvs ''data'' = None"
  shows "\<exists>ev d. recognize_impl env opts buffer lang = Inr ev \<and> alternatives ev = [d] \<and>
               sd_text d = JStr ''''"
proof -
  have "parse_transcript (JObj kvs) = Inr (JStr '''')"
    using unsuccessful by (auto simp: parse_transcript_def split: option.splits)
  then show ?thesis
    using conv resp ok js by (simp add: recognize_impl_def recognize_body_def Let_def)
qed

theorem unsuccessful_response_empty_transcript_witness:
  "status response_unsuccessful = 200 \<and>
   json_result response_unsuccessful = Inr (JObj [(''success'', JBool False)]) \<and>
   (\<exists>ev d. recognize_impl (stt_env_of response_unsuccessful) stt_opts0
              (SingleFrame frame_100ms) None = Inr ev \<and>
           alternatives ev = [d] \<and> sd_text d = JStr '''')"
  using unsuccessful_response_empty_transcript
    [where env = "stt_env_of response_unsuccessful" and buffer = "SingleFrame frame_100ms"
       and a = "''UklGRg==''" and opts = stt_opts0 and lang = None
       and res = response_unsuccessful and kvs = "[(''success'', JBool False)]"]
  by (simp add: stt_env_of_def response_unsuccessful_def)

text \<open>
  C6. A call that returns has one alternative; its confidence is 1, and its language is
  the override when one was passed and the configured language otherwise.
\<close>

theorem recognize_confidence_and_language:
  assumes "recognize_impl env opts buffer lang = Inr ev"
  shows "\<exists>d. alternatives ev = [d] \<and> confidence d = 1 \<and>
             sd_language d = (case lang of None \<Rightarrow> language opts | Some l \<Rightarrow> l)"
  using recognize_impl_InrD [OF assms] by auto

theorem recognize_confidence_and_language_witness:
  "(\<exists>ev. recognize_impl (stt_env_of response_ok) stt_opts0 (SingleFrame frame_100ms)
            (Some ''en'') = Inr ev
      \<and> (\<exists>d. alternatives ev = [d] \<and> confidence d = 1 \<and> sd_language d = ''en''))
   \<and> (\<exists>ev. recognize_impl (stt_env_of response_ok) stt_opts0 (SingleFrame frame_100ms)
            None = Inr ev
      \<and> (\<exists>d. alternatives ev = [d] \<and> confidence d = 1 \<and> sd_language d = ''ar''))"
proof -
  from recognize_impl_response_ok obtain ev1
    where e1: "recognize_impl (stt_env_of response_ok) stt_opts0 (SingleFrame frame_100ms)
                 (Some ''en'') = Inr ev1" ..
  from recognize_impl_response_ok obtain ev2
    where e2: "recognize_impl (stt_env_of response_ok) stt_opts0 (SingleFrame frame_100ms)
                 None = Inr ev2" ..
  show ?thesis
    using e1 e2 recognize_confidence_and_language [OF e1]
      recognize_confidence_and_language [OF e2]
    by (simp add: stt_opts0_def)
qed

text \<open>
  C8. For a call that returns, the end time of the alternative is the total of the
  samples per channel divided by the sample rate of the first frame, for a list of
  frames, and the samples per channel divided by the sample rate for a single frame,
  where the rate is not zero; it is 0 for an empty list and for a buffer that is
  neither; it is 0 whenever computing the duration raised; and whether the call returns
  does not depend on the buffer beyond its encoding, so no such exception reaches the
  caller.
\<close>

theorem recognize_end_time:
  assumes "recognize_impl env opts buffer lang = Inr ev"
  shows "\<exists>d. alternatives ev = [d] \<and>
           (\<forall>fs. buffer = FrameList (map Frame fs) \<and> fs \<noteq> [] \<and>
                 0 \<le> sum_list (map samples_per_channel fs) \<and> sample_rate (hd fs) \<noteq> 0 \<longrightarrow>
                 end_time d =
                   of_int (sum_list (map samples_per_channel fs)) / of_int (sample_rate (hd fs))) \<and>
           (\<forall>f. buffer = SingleFrame f \<and> sample_rate f \<noteq> 0 \<longrightarrow>
                 end_time d = of_int (samples_per_channel f) / of_int (sample_rate f)) \<and>
           (buffer = FrameList [] \<or> buffer = OtherObject \<longrightarrow> end_time d = 0) \<and>
           (\<forall>e. compute_duration buffer = Inl e \<longrightarrow> end_time d = 0) \<and>
           (\<forall>buffer'. convert_to_wav_base64 env buffer' = convert_to_wav_base64 env buffer \<longrightarrow>
                 (\<exists>ev'. recognize_impl env opts buffer' lang = Inr ev'))"
proof -
  from recognize_impl_InrD [OF assms] obtain d
    where d: "alternatives ev = [d]" "end_time d = duration_or_zero buffer"
    by auto
  have list: "duration_or_zero (FrameList (map Frame fs)) =
                of_int (sum_list (map samples_per_channel fs)) / of_int (sample_rate (hd fs))"
    if "fs \<noteq> []" "0 \<le> sum_list (map samples_per_channel fs)" "sample_rate (hd fs) \<noteq> 0"
    for fs
  proof (cases fs)
    case Nil
    with that show ?thesis by simp
  next
    case (Cons f fs')
    have "sum_samples (Frame f # map Frame fs') = Inr (sum_list (map samples_per_channel fs))"
      using sum_samples_frames [of fs] Cons by simp
    with that Cons show ?thesis
      by (simp add: duration_or_zero_def compute_duration_def true_div_def
          del: sum_samples.simps)
  qed
  have single: "duration_or_zero (SingleFrame f) =
                  of_int (samples_per_channel f) / of_int (sample_rate f)"
    if "sample_rate f \<noteq> 0" for f
    using that by (simp add: duration_or_zero_def compute_duration_def true_div_def)
  have empty: "duration_or_zero (FrameList []) = 0" "duration_or_zero OtherObject = 0"
    by (simp_all add: duration_or_zero_def compute_duration_def)
  have raised: "duration_or_zero buffer = 0" if "compute_duration buffer = Inl e" for e
    using that by (simp add: duration_or_zero_def)
  show ?thesis
    using d list single empty raised recognize_impl_same_conversion [OF assms]
    by auto
qed

theorem recognize_end_time_witness:
  "(\<exists>ev d. recognize_impl (stt_env_of response_ok) stt_opts0 buffer_200ms None = Inr ev \<and>
       alternatives ev = [d] \<and> end_time d = 1 / 5)
   \<and> (\<exists>ev d. recognize_impl (stt_env_of response_ok) stt_opts0 (SingleFrame frame_rate0)
              None = Inr ev \<and>
       compute_duration (SingleFrame frame_rate0) = Inl ZeroDivisionError \<and>
       alternatives ev = [d] \<and> end_time d = 0)"
proof -
  from recognize_impl_response_ok obtain ev1
    where e1: "recognize_impl (stt_env_of response_ok) stt_opts0 buffer_200ms None = Inr ev1" ..
  from recognize_impl_response_ok obtain ev2
    where e2: "recognize_impl (stt_env_of response_ok) stt_opts0 (SingleFrame frame_rate0)
                 None = Inr ev2" ..
  have b1: "buffer_200ms = FrameList (map Frame [frame_100ms, frame_100ms])"
    by (simp add: buffer_200ms_def)
  have z: "compute_duration (SingleFrame frame_rate0) = Inl ZeroDivisionError"
    by (simp add: compute_duration_def true_div_def frame_rate0_def)
  from recognize_end_time [OF e1] obtain d1
    where a1: "alternatives ev1 = [d1]"
      and l1: "\<forall>fs. buffer_200ms = FrameList (map Frame fs) \<and> fs \<noteq> [] \<and>
                 0 \<le> sum_list (map samples_per_channel fs) \<and> sample_rate (hd fs) \<noteq> 0 \<longrightarrow>
                 end_time d1 =
                   of_int (sum_list (map samples_per_channel fs)) / of_int (sample_rate (hd fs))"
    by blast
  from l1 [rule_format, of "[frame_100ms, frame_100ms]"] b1 have "end_time d1 = 1 / 5"
    by (simp add: frame_100ms_def)
  with a1 have "\<exists>d. alternatives ev1 = [d] \<and> end_time d = 1 / 5" by blast
  moreover from recognize_end_time [OF e2] z have "\<exists>d. alternatives ev2 = [d] \<and> end_time d = 0"
    by blast
  ultimately show ?thesis using e1 e2 z by auto
qed

text \<open>
  C10. A call that returns has exactly one alternative; its start time is 0 and its
  gender attribute is the string \<^verbatim>\<open>Male\<close>, whatever the audio, the language and the
  response.
\<close>

theorem recognize_single_alternative:
  assumes "recognize_impl env opts buffer lang = Inr ev"
  shows "length (alternatives ev) = 1 \<and>
         (\<exists>d. alternatives ev = [d] \<and> start_time d = 0 \<and> gender d = Some ''Male'')"
  using recognize_impl_InrD [OF assms] by auto

theorem recognize_single_alternative_witness:
  "\<exists>ev. recognize_impl (stt_env_of response_ok) stt_opts0 buffer_200ms (Some ''en'') = Inr ev \<and>
        length (alternatives ev) = 1 \<and>
        (\<exists>d. alternatives ev = [d] \<and> start_time d = 0 \<and> gender d = Some ''Male'')"
proof -
  from recognize_impl_response_ok obtain ev
    where e: "recognize_impl (stt_env_of response_ok) stt_opts0 buffer_200ms (Some ''en'')
                = Inr ev" ..
  show ?thesis
    using e recognize_single_alternative [OF e] by blast
qed

section \<open>Synthesis: the order and the content of a session\<close>

lemma requests_append [simp]: "requests (es @ es') = requests es @ requests es'"
  by (induction es rule: requests.induct) auto

lemma emitted_append [simp]: "emitted (es @ es') = emitted es @ emitted es'"
  by (induction es rule: emitted.induct) auto

lemma received_bytes_append [simp]:
  "received_bytes (es @ es') = received_bytes es @ received_bytes es'"
  by (induction es rule: received_bytes.induct) auto

lemma requests_Emit [simp]: "requests (map (Emit n) fs) = []"
  by (induction fs) auto

lemma emitted_Emit [simp]: "emitted (map (Emit n) fs) = map (Pair n) fs"
  by (induction fs) auto

lemma received_bytes_Emit [simp]: "received_bytes (map (Emit n) fs) = []"
  by (induction fs) auto

lemma transport_events_append [simp]:
  "transport_events (es @ es') = transport_events es @ transport_events es'"
  by (induction es rule: transport_events.induct) auto

lemma transport_events_Emit [simp]: "transport_events (map (Emit n) fs) = []"
  by (induction fs) auto

lemma order_after_append:
  "order_after st (es @ es') =
     (case order_after st es of None \<Rightarrow> None | Some st' \<Rightarrow> order_after st' es')"
  by (induction es arbitrary: st) (auto split: option.splits)

lemma order_after_Emit:
  "order_after (Opened n, concat (map data fs) @ r) (map (Emit n) fs) = Some (Opened n, r)"
  by (induction fs) auto

lemma exchanges_append:
  "exchanges session_post n (ps @ [p]) =
     exchanges session_post n ps @ exchange session_post (n + length ps) p"
  by (induction ps arbitrary: n) auto

subsection \<open>The reassembler\<close>

lemma chop_concat: "chop n b = (ds, r) \<Longrightarrow> concat ds @ r = b"
proof (induction n b arbitrary: ds r rule: chop.induct)
  case (1 n b)
  show ?case
  proof (cases "0 < n \<and> n \<le> length b")
    case True
    obtain ds' r' where rec: "chop n (drop n b) = (ds', r')" by (cases "chop n (drop n b)")
    with True "1.prems" have ds: "ds = take n b # ds'" and r: "r = r'"
      by (simp_all add: chop.simps [of n b])
    from "1.IH" [OF True rec] have "concat ds' @ r' = drop n b" .
    with ds r show ?thesis by simp
  next
    case False
    with "1.prems" show ?thesis by (simp add: chop.simps [of n b])
  qed
qed

lemma write_bs_bytes:
  "write_bs bs c = (bs', fs) \<Longrightarrow> concat (map data fs) @ buf bs' = buf bs @ c"
  by (auto simp: write_bs_def mk_frame_def comp_def split: prod.splits dest!: chop_concat)

lemma write_bs_rate:
  "write_bs bs c = (bs', fs) \<Longrightarrow>
     bs_sample_rate bs' = bs_sample_rate bs \<and> map sample_rate fs = replicate (length fs) (bs_sample_rate bs)"
  by (auto simp: write_bs_def mk_frame_def comp_def map_replicate_const split: prod.splits)

lemma flush_bs_bytes:
  "flush_bs bs = (bs', fs) \<Longrightarrow> concat (map data fs) @ buf bs' = buf bs"
  by (auto simp: flush_bs_def mk_frame_def split: if_splits)

lemma flush_bs_rate:
  "flush_bs bs = (bs', fs) \<Longrightarrow>
     bs_sample_rate bs' = bs_sample_rate bs \<and> map sample_rate fs = replicate (length fs) (bs_sample_rate bs)"
  by (auto simp: flush_bs_def mk_frame_def split: if_splits)

subsection \<open>The invariants are kept\<close>

lemma emitted_bytes_append [simp]:
  "emitted_bytes (es @ es') = emitted_bytes es @ emitted_bytes es'"
  by (simp add: emitted_bytes_def)

lemma emitted_bytes_Emit [simp]: "emitted_bytes (map (Emit n) fs) = concat (map data fs)"
  by (simp add: emitted_bytes_def comp_def)

lemma emitted_bytes_single [simp]:
  "emitted_bytes [Request n p] = []" "emitted_bytes [Received n c] = []"
  "emitted_bytes [LogStatus st r] = []" "emitted_bytes [LogException e] = []"
  by (simp_all add: emitted_bytes_def)

lemma emitted_bytes_Cons [simp]:
  "emitted_bytes [] = []"
  "emitted_bytes (Request n p # es) = emitted_bytes es"
  "emitted_bytes (Received n c # es) = emitted_bytes es"
  "emitted_bytes (LogStatus st r # es) = emitted_bytes es"
  "emitted_bytes (LogException e # es) = emitted_bytes es"
  by (simp_all add: emitted_bytes_def)

lemma list_all_rate:
  "map sample_rate fs = replicate (length fs) r \<Longrightarrow>
   list_all (\<lambda>(n, f). sample_rate f = r) (map (Pair k) fs)"
  by (induction fs) (auto simp: list_all_iff)

lemma receive_chunk_fields [simp]:
  "st_opts (receive_chunk n c s) = st_opts s"
  "accumulated_text (receive_chunk n c s) = accumulated_text s"
  "requests_made (receive_chunk n c s) = requests_made s"
  "requests (trace (receive_chunk n c s)) = requests (trace s)"
  by (auto simp: receive_chunk_def log_event_def emit_frames_def Let_def split: prod.splits)

lemma receive_chunk_opened:
  assumes "opened n s"
  shows "opened n (receive_chunk n c s)"
proof (cases "c = []")
  case True
  with assms show ?thesis
    by (simp add: opened_def receive_chunk_def log_event_def order_after_append)
next
  case False
  obtain bs fs where w: "write_bs (audio_bstream s) c = (bs, fs)"
    by (cases "write_bs (audio_bstream s) c")
  from assms have a: "order_after (Idle, []) (trace s) = Some (Opened n, buf (audio_bstream s))"
    by (simp add: opened_def)
  have b: "order_after (Opened n, buf (audio_bstream s)) (Received n c # map (Emit n) fs) =
             Some (Opened n, buf bs)"
    using order_after_Emit [of n fs "buf bs"] write_bs_bytes [OF w] by simp
  from a b have "order_after (Idle, []) (trace s @ Received n c # map (Emit n) fs) =
                   Some (Opened n, buf bs)"
    by (simp add: order_after_append)
  with False w show ?thesis
    by (simp add: opened_def receive_chunk_def log_event_def emit_frames_def)
qed

lemma receive_chunk_transport [simp]:
  "transport_events (trace (receive_chunk n c s)) = transport_events (trace s) @ [Received n c]"
  by (auto simp: receive_chunk_def log_event_def emit_frames_def Let_def split: prod.splits)

lemma receive_chunk_bytes:
  assumes "bytes_kept s"
  shows "bytes_kept (receive_chunk n c s)"
proof (cases "c = []")
  case True
  with assms show ?thesis
    by (simp add: bytes_kept_def receive_chunk_def log_event_def)
next
  case False
  obtain bs fs where w: "write_bs (audio_bstream s) c = (bs, fs)"
    by (cases "write_bs (audio_bstream s) c")
  from write_bs_bytes [OF w]
  have "emitted_bytes (trace s) @ concat (map data fs) @ buf bs =
          (emitted_bytes (trace s) @ buf (audio_bstream s)) @ c"
    by simp
  with assms have "emitted_bytes (trace s) @ concat (map data fs) @ buf bs =
                     received_bytes (trace s) @ c"
    by (simp add: bytes_kept_def)
  with False w show ?thesis
    by (simp add: bytes_kept_def receive_chunk_def log_event_def emit_frames_def)
qed

lemma receive_chunk_rate:
  assumes "rate_kept r s"
  shows "rate_kept r (receive_chunk n c s)"
proof (cases "c = []")
  case True
  with assms show ?thesis
    by (simp add: rate_kept_def receive_chunk_def log_event_def)
next
  case False
  obtain bs fs where w: "write_bs (audio_bstream s) c = (bs, fs)"
    by (cases "write_bs (audio_bstream s) c")
  from write_bs_rate [OF w] assms False w list_all_rate [of fs r n] show ?thesis
    by (simp add: rate_kept_def receive_chunk_def log_event_def emit_frames_def)
qed

lemma fold_receive_chunk_fields [simp]:
  "st_opts (fold (receive_chunk n) cs s) = st_opts s"
  "accumulated_text (fold (receive_chunk n) cs s) = accumulated_text s"
  "requests_made (fold (receive_chunk n) cs s) = requests_made s"
  "requests (trace (fold (receive_chunk n) cs s)) = requests (trace s)"
  by (induction cs arbitrary: s) simp_all

lemma fold_receive_chunk_opened:
  "opened n s \<Longrightarrow> opened n (fold (receive_chunk n) cs s)"
  by (induction cs arbitrary: s) (simp_all add: receive_chunk_opened)

lemma fold_receive_chunk_transport [simp]:
  "transport_events (trace (fold (receive_chunk n) cs s)) =
     transport_events (trace s) @ map (Received n) cs"
  by (induction cs arbitrary: s) simp_all

lemma fold_receive_chunk_bytes:
  "bytes_kept s \<Longrightarrow> bytes_kept (fold (receive_chunk n) cs s)"
  by (induction cs arbitrary: s) (simp_all add: receive_chunk_bytes)

lemma fold_receive_chunk_rate:
  "rate_kept r s \<Longrightarrow> rate_kept r (fold (receive_chunk n) cs s)"
  by (induction cs arbitrary: s) (simp_all add: receive_chunk_rate)

lemma synthesize_text_fields [simp]:
  "st_opts (synthesize_text session_post segment s) = st_opts s"
  "accumulated_text (synthesize_text session_post segment s) = accumulated_text s"
  "requests_made (synthesize_text session_post segment s) = Suc (requests_made s)"
  "requests (trace (synthesize_text session_post segment s)) =
     requests (trace s) @ [synthesis_payload (st_opts s) segment]"
  by (auto simp: synthesize_text_def log_event_def emit_frames_def Let_def
      split: http_outcome.splits option.splits prod.splits)

lemma synthesize_text_ordered:
  assumes "ordered s"
  shows "ordered (synthesize_text session_post segment s)"
proof -
  let ?n = "requests_made s"
  let ?s1 = "log_event (Request ?n (synthesis_payload (st_opts s) segment))
               (s\<lparr>requests_made := Suc ?n\<rparr>)"
  have s1: "opened ?n ?s1"
    using assms
    by (auto simp: ordered_def opened_def log_event_def order_after_append
        split: option.splits)
  have s2: "opened ?n (fold (receive_chunk ?n) cs ?s1)" for cs
    by (rule fold_receive_chunk_opened [OF s1])
  have made: "requests_made (fold (receive_chunk ?n) cs ?s1) = Suc ?n" for cs
    by (simp add: log_event_def)
  have lg: "ordered (log_event e s2)"
    if "opened ?n s2" "requests_made s2 = Suc ?n" "order_step (Opened ?n, buf (audio_bstream s2)) e
         = Some (Logged ?n, buf (audio_bstream s2))" for e s2
    using that by (simp add: ordered_def opened_def log_event_def order_after_append)
  have fl: "ordered (emit_frames ?n fs (s2\<lparr>audio_bstream := bs\<rparr>))"
    if o: "opened ?n s2" and m: "requests_made s2 = Suc ?n"
      and f: "flush_bs (audio_bstream s2) = (bs, fs)" for s2 bs fs
  proof -
    from f have e: "buf bs = []" by (auto simp: flush_bs_def split: if_splits)
    from flush_bs_bytes [OF f] e have "buf (audio_bstream s2) = concat (map data fs) @ []"
      by simp
    with o order_after_Emit [of ?n fs "[]"]
    have "order_after (Idle, []) (trace s2 @ map (Emit ?n) fs) = Some (Opened ?n, [])"
      by (simp add: opened_def order_after_append)
    with e m show ?thesis
      by (simp add: ordered_def emit_frames_def)
  qed
  show ?thesis
  proof (cases "session_post ?n (synthesis_payload (st_opts s) segment)")
    case (Raises e)
    with lg [OF s2 [of "[]"], of "LogException e"] show ?thesis
      by (simp add: synthesize_text_def Let_def log_event_def)
  next
    case (Responds res)
    show ?thesis
    proof (cases "status res = 200")
      case False
      with Responds lg [OF s2 [of "[]"], of "LogStatus (status res) (reason res)"]
      show ?thesis
        by (simp add: synthesize_text_def Let_def log_event_def)
    next
      case True
      show ?thesis
      proof (cases "body_error res")
        case (Some e)
        with True Responds lg [OF s2 [of "chunks res"] made, of "LogException e"]
        show ?thesis
          by (simp add: synthesize_text_def Let_def)
      next
        case None
        obtain bs fs
          where f: "flush_bs (audio_bstream (fold (receive_chunk ?n) (chunks res) ?s1)) = (bs, fs)"
          by (cases "flush_bs (audio_bstream (fold (receive_chunk ?n) (chunks res) ?s1))")
        with None True Responds fl [OF s2 [of "chunks res"] made f]
        show ?thesis
          by (simp add: synthesize_text_def Let_def)
      qed
    qed
  qed
qed

lemma synthesize_text_exchanged:
  assumes "exchanged session_post s"
  shows "exchanged session_post (synthesize_text session_post segment s)"
proof -
  have "transport_events (trace (synthesize_text session_post segment s)) =
          transport_events (trace s) @
            exchange session_post (requests_made s) (synthesis_payload (st_opts s) segment)"
    by (auto simp: synthesize_text_def exchange_def log_event_def emit_frames_def Let_def
        split: http_outcome.splits option.splits prod.splits)
  with assms show ?thesis
    by (simp add: exchanged_def exchanges_append)
qed

lemma synthesize_text_bytes:
  assumes "bytes_kept s"
  shows "bytes_kept (synthesize_text session_post segment s)"
proof -
  let ?n = "requests_made s"
  let ?s1 = "log_event (Request ?n (synthesis_payload (st_opts s) segment))
               (s\<lparr>requests_made := Suc ?n\<rparr>)"
  have s1: "bytes_kept ?s1"
    using assms by (simp add: bytes_kept_def log_event_def)
  have s2: "bytes_kept (fold (receive_chunk ?n) cs ?s1)" for cs
    by (rule fold_receive_chunk_bytes [OF s1])
  have fl: "bytes_kept (emit_frames ?n fs (s2\<lparr>audio_bstream := bs\<rparr>))"
    if "bytes_kept s2" "flush_bs (audio_bstream s2) = (bs, fs)" for s2 bs fs
    using that flush_bs_bytes [OF that(2)]
    by (simp add: bytes_kept_def emit_frames_def)
  have lg: "bytes_kept (log_event e s2)"
    if "bytes_kept s2" "emitted_bytes [e] = []" "received_bytes [e] = []" for e s2
    using that by (simp add: bytes_kept_def log_event_def)
  show ?thesis
    using s1 s2 fl lg
    by (auto simp: synthesize_text_def Let_def
        split: http_outcome.splits option.splits prod.splits)
qed

lemma synthesize_text_rate:
  assumes "rate_kept r s"
  shows "rate_kept r (synthesize_text session_post segment s)"
proof -
  let ?n = "requests_made s"
  let ?s1 = "log_event (Request ?n (synthesis_payload (st_opts s) segment))
               (s\<lparr>requests_made := Suc ?n\<rparr>)"
  have s1: "rate_kept r ?s1"
    using assms by (simp add: rate_kept_def log_event_def)
  have s2: "rate_kept r (fold (receive_chunk ?n) cs ?s1)" for cs
    by (rule fold_receive_chunk_rate [OF s1])
  have fl: "rate_kept r (emit_frames ?n fs (s2\<lparr>audio_bstream := bs\<rparr>))"
    if "rate_kept r s2" "flush_bs (audio_bstream s2) = (bs, fs)" for s2 bs fs
    using that flush_bs_rate [OF that(2)] list_all_rate [of fs r ?n]
    by (simp add: rate_kept_def emit_frames_def)
  have lg: "rate_kept r (log_event e s2)"
    if "rate_kept r s2" "emitted [e] = []" for e s2
    using that by (simp add: rate_kept_def log_event_def)
  show ?thesis
    using s1 s2 fl lg
    by (auto simp: synthesize_text_def Let_def
        split: http_outcome.splits option.splits prod.splits)
qed

lemma accumulated_text_update_inv [simp]:
  "ordered (s\<lparr>accumulated_text := a\<rparr>) = ordered s"
  "bytes_kept (s\<lparr>accumulated_text := a\<rparr>) = bytes_kept s"
  "rate_kept r (s\<lparr>accumulated_text := a\<rparr>) = rate_kept r s"
  "exchanged session_post (s\<lparr>accumulated_text := a\<rparr>) = exchanged session_post s"
  by (auto simp: ordered_def bytes_kept_def rate_kept_def exchanged_def split: option.splits)

lemma update_options_fields [simp]:
  "trace (update_options spk dia sr s) = trace s"
  "audio_bstream (update_options spk dia sr s) = audio_bstream s"
  "requests_made (update_options spk dia sr s) = requests_made s"
  "accumulated_text (update_options spk dia sr s) = accumulated_text s"
  by (simp_all add: update_options_def Let_def split: option.splits)

lemma update_options_inv [simp]:
  "ordered (update_options spk dia sr s) = ordered s"
  "bytes_kept (update_options spk dia sr s) = bytes_kept s"
  "rate_kept r (update_options spk dia sr s) = rate_kept r s"
  "exchanged session_post (update_options spk dia sr s) = exchanged session_post s"
  by (auto simp: ordered_def bytes_kept_def rate_kept_def exchanged_def split: option.splits)

lemma stream_step_ordered: "ordered s \<Longrightarrow> ordered (stream_step session_post s ev)"
  by (cases ev; cases "case ev of Input i \<Rightarrow> i | _ \<Rightarrow> FlushSentinel")
     (auto simp: Let_def synthesize_text_ordered)

lemma stream_step_bytes: "bytes_kept s \<Longrightarrow> bytes_kept (stream_step session_post s ev)"
  by (cases ev; cases "case ev of Input i \<Rightarrow> i | _ \<Rightarrow> FlushSentinel")
     (auto simp: Let_def synthesize_text_bytes)

lemma stream_step_rate: "rate_kept r s \<Longrightarrow> rate_kept r (stream_step session_post s ev)"
  by (cases ev; cases "case ev of Input i \<Rightarrow> i | _ \<Rightarrow> FlushSentinel")
     (auto simp: Let_def synthesize_text_rate)

lemma stream_step_exchanged:
  "exchanged session_post s \<Longrightarrow> exchanged session_post (stream_step session_post s ev)"
  by (cases ev; cases "case ev of Input i \<Rightarrow> i | _ \<Rightarrow> FlushSentinel")
     (auto simp: Let_def synthesize_text_exchanged)

lemma foldl_stream_step_exchanged:
  "exchanged session_post s \<Longrightarrow> exchanged session_post (foldl (stream_step session_post) s evs)"
  by (induction evs arbitrary: s) (simp_all add: stream_step_exchanged)

lemma stream_step_segments:
  "segments (trace (stream_step session_post s ev)) @
     finalized_segments (accumulated_text (stream_step session_post s ev)) (inputs evs) =
   segments (trace s) @ finalized_segments (accumulated_text s) (inputs (ev # evs))"
  by (cases ev; cases "case ev of Input i \<Rightarrow> i | _ \<Rightarrow> FlushSentinel")
     (auto simp: Let_def segments_def synthesis_payload_def)

lemma foldl_stream_step_segments:
  "segments (trace (foldl (stream_step session_post) s evs)) =
     segments (trace s) @ finalized_segments (accumulated_text s) (inputs evs)"
proof (induction evs arbitrary: s)
  case Nil
  show ?case by simp
next
  case (Cons ev evs)
  from Cons.IH [of "stream_step session_post s ev"] stream_step_segments [of session_post s ev evs]
  show ?case by simp
qed

lemma foldl_stream_step_ordered:
  "ordered s \<Longrightarrow> ordered (foldl (stream_step session_post) s evs)"
  by (induction evs arbitrary: s) (simp_all add: stream_step_ordered)

lemma foldl_stream_step_bytes:
  "bytes_kept s \<Longrightarrow> bytes_kept (foldl (stream_step session_post) s evs)"
  by (induction evs arbitrary: s) (simp_all add: stream_step_bytes)

lemma foldl_stream_step_rate:
  "rate_kept r s \<Longrightarrow> rate_kept r (foldl (stream_step session_post) s evs)"
  by (induction evs arbitrary: s) (simp_all add: stream_step_rate)

lemma start_stream_inv:
  "ordered (start_stream opts)" "bytes_kept (start_stream opts)"
  "rate_kept (opt_sample_rate opts) (start_stream opts)"
  "exchanged session_post (start_stream opts)"
  by (simp_all add: ordered_def bytes_kept_def rate_kept_def exchanged_def start_stream_def
      new_AudioByteStream_def)

lemma frame_rates_constant:
  "list_all (\<lambda>(n, f). sample_rate f = r) xs \<Longrightarrow>
   map snd (map (\<lambda>(n, f). (n, sample_rate f)) xs) = replicate (length xs) r"
  by (induction xs) auto

lemma stream_step_in_step:
  "in_step s s' \<Longrightarrow> in_step (stream_step p s ev) (stream_step p' s' ev)"
  by (cases ev; cases "case ev of Input i \<Rightarrow> i | _ \<Rightarrow> FlushSentinel")
     (auto simp: in_step_def Let_def update_options_def split: option.splits)

lemma foldl_stream_step_in_step:
  "in_step s s' \<Longrightarrow> in_step (foldl (stream_step p) s evs) (foldl (stream_step p') s' evs)"
  by (induction evs arbitrary: s s') (simp_all add: stream_step_in_step)

text \<open>
  \<^verbatim>\<open>update_options\<close> with a sample rate stores it in the options and leaves the
  reassembler as it is, and every frame of a session has the sample rate the options had
  when \<^verbatim>\<open>_run\<close> started, whatever calls of \<^verbatim>\<open>update_options\<close> come between its segments:
  the stored rate is never read again.
\<close>

lemma frames_keep_starting_rate:
  "opt_sample_rate (st_opts (update_options spk dia (Some r) s)) = r
   \<and> audio_bstream (update_options spk dia (Some r) s) = audio_bstream s
   \<and> map snd (frame_rates (trace (run_stream session_post opts evs))) =
       replicate (length (frame_rates (trace (run_stream session_post opts evs))))
         (opt_sample_rate opts)"
proof -
  have "rate_kept (opt_sample_rate opts) (run_stream session_post opts evs)"
    unfolding run_stream_def by (rule foldl_stream_step_rate) (rule start_stream_inv)
  then have "map snd (frame_rates (trace (run_stream session_post opts evs))) =
       replicate (length (frame_rates (trace (run_stream session_post opts evs))))
         (opt_sample_rate opts)"
    using frame_rates_constant [of "opt_sample_rate opts" "emitted (trace (run_stream session_post opts evs))"]
    by (simp add: rate_kept_def frame_rates_def)
  then show ?thesis
    by (simp add: update_options_def Let_def split: option.splits)
qed

text \<open>
  C9. In every session: the trace is in order, so each frame holds exactly the oldest
  bytes received and not yet sent, chunks and frames belong to the latest request,
  requests carry consecutive numbers, and a request is issued, and the session ends,
  only when the segment before is settled, its failure logged or every byte received
  sent in a frame; the trace without its frames is, request by request, the request,
  the chunks the transport answered it with and the log entry of its failure; the
  texts of the requests are the segments the input finalizes, in the order of the
  input; and the bytes of the frames sent, followed by the bytes still buffered, are
  the bytes received, in the order received.
\<close>

theorem session_order:
  "in_order (trace (run_stream session_post opts evs))
   \<and> transport_events (trace (run_stream session_post opts evs)) =
       exchanges session_post 0 (requests (trace (run_stream session_post opts evs)))
   \<and> segments (trace (run_stream session_post opts evs)) = finalized_segments [] (inputs evs)
   \<and> emitted_bytes (trace (run_stream session_post opts evs)) @
       buf (audio_bstream (run_stream session_post opts evs)) =
     received_bytes (trace (run_stream session_post opts evs))"
proof -
  have "ordered (run_stream session_post opts evs)"
    unfolding run_stream_def by (rule foldl_stream_step_ordered) (rule start_stream_inv)
  then have "in_order (trace (run_stream session_post opts evs))"
    by (auto simp: ordered_def in_order_def split: option.splits)
  moreover have "exchanged session_post (run_stream session_post opts evs)"
    unfolding run_stream_def by (rule foldl_stream_step_exchanged) (rule start_stream_inv)
  moreover have "segments (trace (run_stream session_post opts evs)) =
                   finalized_segments [] (inputs evs)"
    using foldl_stream_step_segments [of session_post "start_stream opts" evs]
    by (simp add: run_stream_def start_stream_def segments_def)
  moreover have "bytes_kept (run_stream session_post opts evs)"
    unfolding run_stream_def by (rule foldl_stream_step_bytes) (rule start_stream_inv)
  ultimately show ?thesis by (simp add: exchanged_def bytes_kept_def)
qed

text \<open>
  C7. On the flush sentinel, an accumulator that is not empty after trimming is sent,
  trimmed, as one segment; one that is empty or only whitespace sends nothing and
  changes nothing else; in both cases the accumulator is empty afterwards.
\<close>

theorem flush_emits_trimmed_accumulator:
  "(strip (accumulated_text s) \<noteq> [] \<longrightarrow>
      segments (trace (process_input session_post FlushSentinel s)) =
        segments (trace s) @ [strip (accumulated_text s)])
   \<and> (strip (accumulated_text s) = [] \<longrightarrow>
      process_input session_post FlushSentinel s = s\<lparr>accumulated_text := []\<rparr>)
   \<and> accumulated_text (process_input session_post FlushSentinel s) = []"
  by (simp add: segments_def synthesis_payload_def)

text \<open>
  C3, as the code has it. When the accumulator with the new token appended contains a
  full stop, an exclamation mark, a question mark or a newline, the accumulator is
  reset to empty, and its trimmed text, terminal character included, is sent as one
  segment if it is not empty; the three tokens above give the one segment
  \<^verbatim>\<open>Hello world.\<close>
\<close>

theorem token_with_terminal_emits_segment:
  "(has_terminal (accumulated_text s @ t) \<longrightarrow>
      accumulated_text (process_input session_post (Token t) s) = [] \<and>
      segments (trace (process_input session_post (Token t) s)) =
        segments (trace s) @
          (if strip (accumulated_text s @ t) = [] then [] else [strip (accumulated_text s @ t)]))
   \<and> segments (trace (run_stream session_post opts hello_world)) = [''Hello world.'']"
proof -
  have "segments (trace (run_stream session_post opts hello_world)) = [''Hello world.'']"
    by (simp add: run_stream_def hello_world_def start_stream_def has_terminal_def
        strip_def isspace_def segments_def synthesis_payload_def Let_def)
  then show ?thesis
    by (simp add: segments_def synthesis_payload_def Let_def)
qed

text \<open>
  C4. The requests of a session are the same whatever the transport answers, so a
  failed segment does not keep a later one from being sent; and a request that fails
  returns with a log entry: a transport exception or a status other than 200 adds the
  request and one log entry to the trace and leaves the reassembler untouched, and an
  exception while the body is read ends the segment with its log entry. The session is
  a total function of its input: no exception leaves it.
\<close>

theorem segment_failures_are_suppressed:
  "requests (trace (run_stream session_post opts evs)) =
     requests (trace (run_stream other_post opts evs))
   \<and> (session_post (requests_made s) (synthesis_payload (st_opts s) segment) = Raises e \<longrightarrow>
        trace (synthesize_text session_post segment s) =
          trace s @ [Request (requests_made s) (synthesis_payload (st_opts s) segment),
                     LogException e] \<and>
        audio_bstream (synthesize_text session_post segment s) = audio_bstream s)
   \<and> (session_post (requests_made s) (synthesis_payload (st_opts s) segment) = Responds res \<and>
      status res \<noteq> 200 \<longrightarrow>
        trace (synthesize_text session_post segment s) =
          trace s @ [Request (requests_made s) (synthesis_payload (st_opts s) segment),
                     LogStatus (status res) (reason res)] \<and>
        audio_bstream (synthesize_text session_post segment s) = audio_bstream s)
   \<and> (session_post (requests_made s) (synthesis_payload (st_opts s) segment) = Responds res \<and>
      status res = 200 \<and> body_error res = Some e \<longrightarrow>
        last (trace (synthesize_text session_post segment s)) = LogException e)"
proof -
  have "in_step (run_stream session_post opts evs) (run_stream other_post opts evs)"
    unfolding run_stream_def
    by (rule foldl_stream_step_in_step) (simp add: in_step_def)
  then show ?thesis
    by (simp add: in_step_def synthesize_text_def log_event_def Let_def)
qed

lemma chop_small: "length b < n \<Longrightarrow> chop n b = ([], b)"
  by (simp add: chop.simps)

lemmas run_simps =
  run_stream_def start_stream_def tts_opts0_def post_audio_def post_flaky_def
  response_audio_def response_500_def synthesize_text_def receive_chunk_def log_event_def
  emit_frames_def write_bs_def flush_bs_def new_AudioByteStream_def NUM_CHANNELS_def
  mk_frame_def update_options_def has_terminal_def strip_def isspace_def
  synthesis_payload_def chop_small Let_def

text \<open>
  C2. The claim: after \<^verbatim>\<open>update_options\<close> with a new sample rate, the segments
  synthesized later are reassembled at the new rate. The code stores the rate, and
  forwards it to the running streams, but a running stream never reads it again. In a
  session constructed at 16000 Hz, the rate is set to 8000 between the segments \<^verbatim>\<open>A.\<close>
  and \<^verbatim>\<open>B.\<close>; the option then reads 8000, and the frame of the second request still
  has the rate 16000. A one-shot call with the options as updated sends its frame at
  8000, and a speaker set by the same method between two segments is the speaker of
  the second request.
\<close>

theorem sample_rate_update_not_applied:
  "frame_rates (trace (run_stream post_audio tts_opts0 rate_change)) = [(0, 16000), (1, 16000)]
   \<and> opt_sample_rate (st_opts (run_stream post_audio tts_opts0 rate_change)) = 8000
   \<and> oneshot_frame_rates
         (chunked_run oneshot_audio (st_opts (run_stream post_audio tts_opts0 rate_change))
            ''B.'' 1) = [8000]
   \<and> map p_speaker (requests (trace (run_stream post_audio tts_opts0 speaker_change))) =
         [''Ali'', ''Sara'']"
  by (simp add: run_simps rate_change_def speaker_change_def frame_rates_def
      oneshot_frame_rates_def chunked_run_def oneshot_audio_def)

text \<open>
  C3. The claim: the tokens \<^verbatim>\<open>Hello\<close>, \<^verbatim>\<open> world\<close> and a full stop give one segment with the
  text \<^verbatim>\<open>Hello world\<close>, and an accumulator that contains a terminal character is emitted
  as one segment. The segment of the three tokens keeps its full stop, and a token
  that is only a newline contains a terminal character and gives no segment.
\<close>

theorem hello_world_counterexample:
  "segments (trace (run_stream post_audio tts_opts0 hello_world)) = [''Hello world.'']
   \<and> segments (trace (run_stream post_audio tts_opts0 hello_world)) \<noteq> [''Hello world'']
   \<and> has_terminal [CHR 0x0A]
   \<and> segments (trace (run_stream post_audio tts_opts0 [Input (Token [CHR 0x0A])])) = []"
  by (simp add: run_simps hello_world_def segments_def)

theorem token_with_terminal_emits_segment_witness:
  "has_terminal (accumulated_text (start_stream tts_opts0) @ ''Hi!'')
   \<and> accumulated_text (process_input post_audio (Token ''Hi!'') (start_stream tts_opts0)) = []
   \<and> segments (trace (process_input post_audio (Token ''Hi!'') (start_stream tts_opts0))) =
       [''Hi!'']"
  using token_with_terminal_emits_segment
    [where s = "start_stream tts_opts0" and t = "''Hi!''" and session_post = post_audio]
  by (simp add: start_stream_def has_terminal_def strip_def isspace_def segments_def)

theorem flush_emits_trimmed_accumulator_witness:
  "strip (accumulated_text (process_input post_audio (Token '' Hi '') (start_stream tts_opts0)))
     = ''Hi''
   \<and> segments (trace (process_input post_audio FlushSentinel
        (process_input post_audio (Token '' Hi '') (start_stream tts_opts0)))) = [''Hi'']
   \<and> strip (accumulated_text (start_stream tts_opts0)) = []
   \<and> process_input post_audio FlushSentinel (start_stream tts_opts0) = start_stream tts_opts0"
  using flush_emits_trimmed_accumulator
    [where s = "process_input post_audio (Token '' Hi '') (start_stream tts_opts0)"
       and session_post = post_audio]
    flush_emits_trimmed_accumulator
    [where s = "start_stream tts_opts0" and session_post = post_audio]
  by (simp add: start_stream_def has_terminal_def strip_def isspace_def segments_def)

theorem segment_failures_are_suppressed_witness:
  "post_flaky (requests_made (start_stream tts_opts0))
     (synthesis_payload (st_opts (start_stream tts_opts0)) ''A.'') = Responds response_500
   \<and> status response_500 \<noteq> 200
   \<and> trace (synthesize_text post_flaky ''A.'' (start_stream tts_opts0)) =
       [Request 0 (synthesis_payload tts_opts0 ''A.''),
        LogStatus 500 (Some ''Internal Server Error'')]
   \<and> segments (trace (run_stream post_flaky tts_opts0 two_sentences)) = [''A.'', ''B.'']"
proof -
  have audio: "requests (trace (run_stream post_audio tts_opts0 two_sentences)) =
                 [synthesis_payload tts_opts0 ''A.'', synthesis_payload tts_opts0 ''B.'']"
    by (simp add: run_simps two_sentences_def)
  have first: "post_flaky (requests_made (start_stream tts_opts0))
     (synthesis_payload (st_opts (start_stream tts_opts0)) ''A.'') = Responds response_500"
    by (simp add: post_flaky_def start_stream_def)
  have st: "status response_500 \<noteq> 200" "status response_500 = 500"
    "reason response_500 = Some ''Internal Server Error''"
    by (simp_all add: response_500_def)
  show ?thesis
    using segment_failures_are_suppressed
      [where session_post = post_flaky and other_post = post_audio and opts = tts_opts0
         and evs = two_sentences and s = "start_stream tts_opts0" and segment = "''A.''"
         and res = response_500]
      audio first st
    by (simp add: segments_def synthesis_payload_def start_stream_def)
qed

end
